theory Spec2Isabelle
  imports Main "HOL-Library.Word"
begin

section \<open>The single-scheme Data Matrix encoder (dmtxencodesingle.c)\<close>

text \<open>
  A shallow embedding of the scheme dispatcher of libdmtx's single-scheme encoder
  and of its two randomisation functions. Each definition of the first part follows one
  function, one \<^verbatim>\<open>switch\<close> statement or one macro of \<^verbatim>\<open>dmtxencodesingle.c\<close>. The
  stream is changed in place by the C code; here every function takes the stream and
  returns the new one.
\<close>

subsection \<open>C arithmetic\<close>

text \<open>
  \<^verbatim>\<open>DmtxByte\<close> is an unsigned char: an 8-bit word. A byte used in an \<^verbatim>\<open>int\<close>
  expression is promoted (\<open>uint\<close>); the conversion back to \<^verbatim>\<open>DmtxByte\<close> keeps the low
  eight bits (\<open>word_of_int\<close>).

  An \<^verbatim>\<open>int\<close> has 32 bits. The randomisation functions form one product,
  \<^verbatim>\<open>149 * position\<close>, and it leaves the range of an \<^verbatim>\<open>int\<close> from position 14412642
  on: the result then wraps around in two's complement, which \<open>int32_wrap\<close> writes out.
  The remainder of a division by 253 or 255 is below 255 in absolute value, so the sums
  and differences formed afterwards stay far inside the range and are plain integer
  arithmetic.

  C's \<^verbatim>\<open>%\<close> truncates towards zero: the remainder has the sign of the dividend.
\<close>

type_synonym DmtxByte = "8 word"

definition int32_wrap :: "int \<Rightarrow> int" where
  "int32_wrap x = (x + 2147483648) mod 4294967296 - 2147483648"

definition c_rem :: "int \<Rightarrow> int \<Rightarrow> int" where
  "c_rem a b = sgn a * (\<bar>a\<bar> mod \<bar>b\<bar>)"

text \<open>A failed \<^verbatim>\<open>assert\<close> aborts the program: it is a result of its own.\<close>

datatype abort = AssertionFailed

subsection \<open>Randomize253State2 and Randomize255State2\<close>

text \<open>
  \<^verbatim>\<open>Randomize253State2\<close>, up to the assertion: the value of \<^verbatim>\<open>tmp\<close> after the
  conditional subtraction of 254.
\<close>

definition Randomize253State2_tmp :: "DmtxByte \<Rightarrow> int \<Rightarrow> int" where
  "Randomize253State2_tmp cwValue cwPosition =
     (let pseudoRandom = c_rem (int32_wrap (149 * cwPosition)) 253 + 1;
          tmp = uint cwValue + pseudoRandom
      in if tmp > 254 then tmp - 254 else tmp)"

definition Randomize253State2 :: "DmtxByte \<Rightarrow> int \<Rightarrow> abort + DmtxByte" where
  "Randomize253State2 cwValue cwPosition =
     (let tmp = Randomize253State2_tmp cwValue cwPosition
      in if tmp \<ge> 0 \<and> tmp < 256 then Inr (word_of_int tmp) else Inl AssertionFailed)"

definition Randomize255State2 :: "DmtxByte \<Rightarrow> int \<Rightarrow> DmtxByte" where
  "Randomize255State2 val position =
     (let pseudoRandom = c_rem (int32_wrap (149 * position)) 255 + 1;
          tmp = uint val + pseudoRandom
      in word_of_int (if tmp \<le> 255 then tmp else tmp - 256))"

subsection \<open>The encode stream\<close>

text \<open>
  Modelled from the spec: the declarations of \<^verbatim>\<open>dmtx.h\<close> and \<^verbatim>\<open>dmtxstatic.h\<close>, which
  \<^verbatim>\<open>dmtxencodesingle.c\<close> includes. The stream's \<^verbatim>\<open>currentScheme\<close> is an \<^verbatim>\<open>int\<close> field: besides the
  six encodation schemes it can hold any other value, \<open>DmtxSchemeOther\<close>, which is what
  the \<^verbatim>\<open>default\<close> branches of the dispatcher are written for. The field
  \<^verbatim>\<open>output\<close> is \<open>outputList\<close> here. The unlatch type is an \<^verbatim>\<open>int\<close> that the code
  only compares with \<^verbatim>\<open>DmtxUnlatchExplicit\<close>; \<open>DmtxUnlatchImplicit\<close> stands for every
  other value.
\<close>

datatype DmtxScheme =
    DmtxSchemeAscii
  | DmtxSchemeC40
  | DmtxSchemeText
  | DmtxSchemeX12
  | DmtxSchemeEdifact
  | DmtxSchemeBase256
  | DmtxSchemeOther int

datatype DmtxStatus =
    DmtxStatusEncoding
  | DmtxStatusComplete
  | DmtxStatusInvalid
  | DmtxStatusFatal

datatype DmtxPassFail = DmtxFail | DmtxPass

datatype DmtxUnlatch = DmtxUnlatchExplicit | DmtxUnlatchImplicit

record DmtxEncodeStream =
  currentScheme :: DmtxScheme
  inputNext :: nat
  outputChainValueCount :: int
  outputChainWordCount :: int
  reason :: int
  status :: DmtxStatus
  input :: "DmtxByte list"
  outputList :: "DmtxByte list"

text \<open>
  Modelled from the spec: the reserved codewords of section 6 that the scheme change
  passes to the value emitters.
\<close>

definition DmtxValueC40Latch :: DmtxByte where "DmtxValueC40Latch = 230"
definition DmtxValueTextLatch :: DmtxByte where "DmtxValueTextLatch = 239"
definition DmtxValueX12Latch :: DmtxByte where "DmtxValueX12Latch = 238"
definition DmtxValueEdifactLatch :: DmtxByte where "DmtxValueEdifactLatch = 240"
definition DmtxValueBase256Latch :: DmtxByte where "DmtxValueBase256Latch = 231"
definition DmtxValueEdifactUnlatch :: DmtxByte where "DmtxValueEdifactUnlatch = 31"
definition DmtxValueCTXUnlatch :: DmtxByte where "DmtxValueCTXUnlatch = 254"
definition DmtxValueAsciiPad :: DmtxByte where "DmtxValueAsciiPad = 129"
definition DmtxValueAsciiUpperShift :: DmtxByte where "DmtxValueAsciiUpperShift = 235"

text \<open>
  Modelled from the spec: the stream primitives of \<^verbatim>\<open>dmtxencodestream.c\<close>. Marking a
  stream sets its status together with the reason code; the input cursor has a next byte
  while the read index is inside the input.
\<close>

definition StreamMarkFatal :: "DmtxEncodeStream \<Rightarrow> int \<Rightarrow> DmtxEncodeStream" where
  "StreamMarkFatal stream reasonIdx = stream\<lparr>status := DmtxStatusFatal, reason := reasonIdx\<rparr>"

definition StreamMarkInvalid :: "DmtxEncodeStream \<Rightarrow> int \<Rightarrow> DmtxEncodeStream" where
  "StreamMarkInvalid stream reasonIdx = stream\<lparr>status := DmtxStatusInvalid, reason := reasonIdx\<rparr>"

definition StreamInputHasNext :: "DmtxEncodeStream \<Rightarrow> bool" where
  "StreamInputHasNext stream = (inputNext stream < length (input stream))"

subsection \<open>The routines of the other files\<close>

text \<open>
  The dispatcher calls the per-scheme chunk encoders, their completion checks and the
  value emitters, which are defined in other files of the library, and it passes the
  sentinel \<^verbatim>\<open>DmtxUndefined\<close>. They are parameters of the model: every theorem about the
  dispatcher holds for all of them.
\<close>

record externals =
  DmtxUndefined :: int
  EncodeNextChunkAscii :: "DmtxEncodeStream \<Rightarrow> DmtxEncodeStream"
  CompleteIfDoneAscii :: "DmtxEncodeStream \<Rightarrow> int \<Rightarrow> DmtxEncodeStream"
  EncodeNextChunkCTX :: "DmtxEncodeStream \<Rightarrow> int \<Rightarrow> DmtxEncodeStream"
  CompleteIfDoneCTX :: "DmtxEncodeStream \<Rightarrow> int \<Rightarrow> DmtxEncodeStream"
  EncodeNextChunkEdifact :: "DmtxEncodeStream \<Rightarrow> DmtxEncodeStream"
  CompleteIfDoneEdifact :: "DmtxEncodeStream \<Rightarrow> int \<Rightarrow> DmtxEncodeStream"
  EncodeNextChunkBase256 :: "DmtxEncodeStream \<Rightarrow> DmtxEncodeStream"
  CompleteIfDoneBase256 :: "DmtxEncodeStream \<Rightarrow> int \<Rightarrow> DmtxEncodeStream"
  EncodeUnlatchCTX :: "DmtxEncodeStream \<Rightarrow> DmtxEncodeStream"
  EncodeValueEdifact :: "DmtxEncodeStream \<Rightarrow> DmtxByte \<Rightarrow> DmtxEncodeStream"
  EncodeValueAscii :: "DmtxEncodeStream \<Rightarrow> DmtxByte \<Rightarrow> DmtxEncodeStream"
  UpdateBase256ChainHeader :: "DmtxEncodeStream \<Rightarrow> int \<Rightarrow> DmtxEncodeStream"

subsection \<open>The macros CHKERR and CHKSCHEME\<close>

text \<open>
  Both macros end in \<^verbatim>\<open>return\<close>: a statement either lets the function go on with the
  stream or returns it at once.
\<close>

datatype flow = Continue DmtxEncodeStream | Return DmtxEncodeStream

definition CHKERR :: "DmtxEncodeStream \<Rightarrow> flow" where
  "CHKERR stream = (if status stream \<noteq> DmtxStatusEncoding then Return stream else Continue stream)"

definition CHKSCHEME :: "DmtxScheme \<Rightarrow> DmtxEncodeStream \<Rightarrow> flow" where
  "CHKSCHEME s stream =
     (if currentScheme stream \<noteq> s then Return (StreamMarkFatal stream 1) else Continue stream)"

subsection \<open>EncodeChangeScheme\<close>

text \<open>The first \<^verbatim>\<open>switch\<close>: every latch goes through ASCII, so the current scheme is left.\<close>

definition EncodeChangeScheme_unlatch ::
  "externals \<Rightarrow> DmtxEncodeStream \<Rightarrow> DmtxUnlatch \<Rightarrow> abort + flow" where
  "EncodeChangeScheme_unlatch h stream unlatchType =
     (case currentScheme stream of
        DmtxSchemeC40 \<Rightarrow>
          if unlatchType = DmtxUnlatchExplicit
          then Inr (CHKERR (EncodeUnlatchCTX h stream)) else Inr (Continue stream)
      | DmtxSchemeText \<Rightarrow>
          if unlatchType = DmtxUnlatchExplicit
          then Inr (CHKERR (EncodeUnlatchCTX h stream)) else Inr (Continue stream)
      | DmtxSchemeX12 \<Rightarrow>
          if unlatchType = DmtxUnlatchExplicit
          then Inr (CHKERR (EncodeUnlatchCTX h stream)) else Inr (Continue stream)
      | DmtxSchemeEdifact \<Rightarrow>
          if unlatchType = DmtxUnlatchExplicit
          then Inr (CHKERR (EncodeValueEdifact h stream DmtxValueEdifactUnlatch))
          else Inr (Continue stream)
      | _ \<Rightarrow>
          if currentScheme stream = DmtxSchemeAscii \<or> currentScheme stream = DmtxSchemeBase256
          then Inr (Continue stream) else Inl AssertionFailed)"

text \<open>The second \<^verbatim>\<open>switch\<close>: anything other than ASCII requires a latch.\<close>

definition EncodeChangeScheme_latch ::
  "externals \<Rightarrow> DmtxEncodeStream \<Rightarrow> DmtxScheme \<Rightarrow> flow" where
  "EncodeChangeScheme_latch h stream targetScheme =
     (case targetScheme of
        DmtxSchemeC40 \<Rightarrow> CHKERR (EncodeValueAscii h stream DmtxValueC40Latch)
      | DmtxSchemeText \<Rightarrow> CHKERR (EncodeValueAscii h stream DmtxValueTextLatch)
      | DmtxSchemeX12 \<Rightarrow> CHKERR (EncodeValueAscii h stream DmtxValueX12Latch)
      | DmtxSchemeEdifact \<Rightarrow> CHKERR (EncodeValueAscii h stream DmtxValueEdifactLatch)
      | DmtxSchemeBase256 \<Rightarrow> CHKERR (EncodeValueAscii h stream DmtxValueBase256Latch)
      | _ \<Rightarrow> CHKSCHEME DmtxSchemeAscii stream)"

definition EncodeChangeScheme ::
  "externals \<Rightarrow> DmtxEncodeStream \<Rightarrow> DmtxScheme \<Rightarrow> DmtxUnlatch \<Rightarrow> abort + DmtxEncodeStream" where
  "EncodeChangeScheme h stream targetScheme unlatchType =
     (if currentScheme stream = targetScheme then Inr stream
      else
        case EncodeChangeScheme_unlatch h stream unlatchType of
          Inl a \<Rightarrow> Inl a
        | Inr (Return s1) \<Rightarrow> Inr s1
        | Inr (Continue s1) \<Rightarrow>
            (case EncodeChangeScheme_latch h (s1\<lparr>currentScheme := DmtxSchemeAscii\<rparr>) targetScheme of
               Return s2 \<Rightarrow> Inr s2
             | Continue s2 \<Rightarrow>
                 (let s3 = s2\<lparr>currentScheme := targetScheme,
                               outputChainWordCount := 0,
                               outputChainValueCount := 0\<rparr>
                  in if targetScheme = DmtxSchemeBase256
                     then Inr (UpdateBase256ChainHeader h s3 (DmtxUndefined h))
                     else Inr s3)))"

subsection \<open>EncodeNextChunk\<close>

text \<open>
  The \<^verbatim>\<open>switch\<close> on the current scheme. The function returns nothing, so the
  \<^verbatim>\<open>CHKERR\<close> that follows a completion check changes nothing: the stream is the result
  either way.
\<close>

definition EncodeNextChunk_switch ::
  "externals \<Rightarrow> DmtxEncodeStream \<Rightarrow> int \<Rightarrow> DmtxEncodeStream" where
  "EncodeNextChunk_switch h stream requestedSizeIdx =
     (case currentScheme stream of
        DmtxSchemeAscii \<Rightarrow>
          (case CHKERR (EncodeNextChunkAscii h stream) of
             Return s \<Rightarrow> s
           | Continue s \<Rightarrow> CompleteIfDoneAscii h s requestedSizeIdx)
      | DmtxSchemeC40 \<Rightarrow>
          (case CHKERR (EncodeNextChunkCTX h stream requestedSizeIdx) of
             Return s \<Rightarrow> s
           | Continue s \<Rightarrow> CompleteIfDoneCTX h s requestedSizeIdx)
      | DmtxSchemeText \<Rightarrow>
          (case CHKERR (EncodeNextChunkCTX h stream requestedSizeIdx) of
             Return s \<Rightarrow> s
           | Continue s \<Rightarrow> CompleteIfDoneCTX h s requestedSizeIdx)
      | DmtxSchemeX12 \<Rightarrow>
          (case CHKERR (EncodeNextChunkCTX h stream requestedSizeIdx) of
             Return s \<Rightarrow> s
           | Continue s \<Rightarrow> CompleteIfDoneCTX h s requestedSizeIdx)
      | DmtxSchemeEdifact \<Rightarrow>
          (case CHKERR (EncodeNextChunkEdifact h stream) of
             Return s \<Rightarrow> s
           | Continue s \<Rightarrow> CompleteIfDoneEdifact h s requestedSizeIdx)
      | DmtxSchemeBase256 \<Rightarrow>
          (case CHKERR (EncodeNextChunkBase256 h stream) of
             Return s \<Rightarrow> s
           | Continue s \<Rightarrow> CompleteIfDoneBase256 h s requestedSizeIdx)
      | DmtxSchemeOther _ \<Rightarrow> StreamMarkFatal stream 1)"

definition EncodeNextChunk ::
  "externals \<Rightarrow> DmtxEncodeStream \<Rightarrow> DmtxScheme \<Rightarrow> int \<Rightarrow> abort + DmtxEncodeStream" where
  "EncodeNextChunk h stream targetScheme requestedSizeIdx =
     (if currentScheme stream \<noteq> targetScheme
      then
        case EncodeChangeScheme h stream targetScheme DmtxUnlatchExplicit of
          Inl a \<Rightarrow> Inl a
        | Inr s1 \<Rightarrow>
            (case CHKERR s1 of
               Return s2 \<Rightarrow> Inr s2
             | Continue s2 \<Rightarrow>
                 (case CHKSCHEME targetScheme s2 of
                    Return s3 \<Rightarrow> Inr s3
                  | Continue s3 \<Rightarrow> Inr (EncodeNextChunk_switch h s3 requestedSizeIdx)))
      else Inr (EncodeNextChunk_switch h stream requestedSizeIdx))"

subsection \<open>EncodeSingleScheme2\<close>

text \<open>
  The \<^verbatim>\<open>while\<close> loop. Nothing in this file bounds the number of chunks, so the loop is a
  partial function: \<open>None\<close> is a run that never leaves the loop, \<open>Some (Inl a)\<close> one
  that an assertion ends.
\<close>

partial_function (option) EncodeSingleScheme2_loop ::
  "externals \<Rightarrow> DmtxScheme \<Rightarrow> int \<Rightarrow> DmtxEncodeStream \<Rightarrow> (abort + DmtxEncodeStream) option" where
  "EncodeSingleScheme2_loop h targetScheme requestedSizeIdx stream =
     (if status stream = DmtxStatusEncoding
      then
        case EncodeNextChunk h stream targetScheme requestedSizeIdx of
          Inl a \<Rightarrow> Some (Inl a)
        | Inr s \<Rightarrow> EncodeSingleScheme2_loop h targetScheme requestedSizeIdx s
      else Some (Inr stream))"

declare EncodeSingleScheme2_loop.simps [code]

definition EncodeSingleScheme2 ::
  "externals \<Rightarrow> DmtxEncodeStream \<Rightarrow> DmtxScheme \<Rightarrow> int
     \<Rightarrow> (abort + DmtxEncodeStream \<times> DmtxPassFail) option" where
  "EncodeSingleScheme2 h stream targetScheme requestedSizeIdx =
     (if currentScheme stream \<noteq> DmtxSchemeAscii
      then Some (Inr (StreamMarkFatal stream 1, DmtxFail))
      else
        case EncodeSingleScheme2_loop h targetScheme requestedSizeIdx stream of
          None \<Rightarrow> None
        | Some (Inl a) \<Rightarrow> Some (Inl a)
        | Some (Inr s) \<Rightarrow>
            if status s \<noteq> DmtxStatusComplete \<or> StreamInputHasNext s
            then Some (Inr (s, DmtxFail))
            else Some (Inr (s, DmtxPass)))"

subsection \<open>The dispatcher in the words of the specification\<close>

text \<open>
  The procedures of section 4.1 of the specification, written as the specification
  words them: a table of unlatch values, a table of latch codewords, a table of
  sub-encoders, and steps that are skipped once the status has left Encoding. They are
  compared with the functions above.
\<close>

datatype unlatch_word = CtxUnlatch | EdifactUnlatch

definition spec_unlatch :: "DmtxScheme \<Rightarrow> DmtxUnlatch \<Rightarrow> unlatch_word option" where
  "spec_unlatch current unlatchType =
     (if current \<in> {DmtxSchemeC40, DmtxSchemeText, DmtxSchemeX12} \<and> unlatchType = DmtxUnlatchExplicit
      then Some CtxUnlatch
      else if current = DmtxSchemeEdifact \<and> unlatchType = DmtxUnlatchExplicit
      then Some EdifactUnlatch
      else None)"

definition spec_latch :: "DmtxScheme \<Rightarrow> DmtxByte option" where
  "spec_latch target =
     (case target of
        DmtxSchemeC40 \<Rightarrow> Some 230
      | DmtxSchemeText \<Rightarrow> Some 239
      | DmtxSchemeX12 \<Rightarrow> Some 238
      | DmtxSchemeEdifact \<Rightarrow> Some 240
      | DmtxSchemeBase256 \<Rightarrow> Some 231
      | _ \<Rightarrow> None)"

text \<open>
  The CTX unlatch codeword is written by \<^verbatim>\<open>EncodeUnlatchCTX\<close>; the EDIFACT unlatch is the
  six-bit value 31 handed to \<^verbatim>\<open>EncodeValueEdifact\<close>.
\<close>

definition emit_unlatch :: "externals \<Rightarrow> unlatch_word \<Rightarrow> DmtxEncodeStream \<Rightarrow> DmtxEncodeStream" where
  "emit_unlatch h w stream =
     (case w of
        CtxUnlatch \<Rightarrow> EncodeUnlatchCTX h stream
      | EdifactUnlatch \<Rightarrow> EncodeValueEdifact h stream 31)"

definition if_encoding ::
  "(DmtxEncodeStream \<Rightarrow> DmtxEncodeStream) \<Rightarrow> DmtxEncodeStream \<Rightarrow> DmtxEncodeStream" where
  "if_encoding step stream = (if status stream = DmtxStatusEncoding then step stream else stream)"

definition change_scheme_spec ::
  "externals \<Rightarrow> DmtxEncodeStream \<Rightarrow> DmtxScheme \<Rightarrow> DmtxUnlatch \<Rightarrow> DmtxEncodeStream" where
  "change_scheme_spec h stream target unlatchType =
     (let unlatched =
            (case spec_unlatch (currentScheme stream) unlatchType of
               None \<Rightarrow> stream
             | Some w \<Rightarrow> emit_unlatch h w stream);
          latched =
            if_encoding
              (\<lambda>s. case spec_latch target of
                      None \<Rightarrow> s\<lparr>currentScheme := DmtxSchemeAscii\<rparr>
                    | Some c \<Rightarrow> EncodeValueAscii h (s\<lparr>currentScheme := DmtxSchemeAscii\<rparr>) c)
              unlatched;
          started =
            if_encoding
              (\<lambda>s. s\<lparr>currentScheme := target,
                      outputChainWordCount := 0,
                      outputChainValueCount := 0\<rparr>)
              latched
      in if target = DmtxSchemeBase256
         then if_encoding (\<lambda>s. UpdateBase256ChainHeader h s (DmtxUndefined h)) started
         else started)"

definition spec_sub_encoder ::
  "externals \<Rightarrow> DmtxScheme \<Rightarrow> int
     \<Rightarrow> ((DmtxEncodeStream \<Rightarrow> DmtxEncodeStream) \<times> (DmtxEncodeStream \<Rightarrow> DmtxEncodeStream)) option" where
  "spec_sub_encoder h current requestedSizeIdx =
     (if current = DmtxSchemeAscii
      then Some (EncodeNextChunkAscii h, \<lambda>s. CompleteIfDoneAscii h s requestedSizeIdx)
      else if current \<in> {DmtxSchemeC40, DmtxSchemeText, DmtxSchemeX12}
      then Some (\<lambda>s. EncodeNextChunkCTX h s requestedSizeIdx, \<lambda>s. CompleteIfDoneCTX h s requestedSizeIdx)
      else if current = DmtxSchemeEdifact
      then Some (EncodeNextChunkEdifact h, \<lambda>s. CompleteIfDoneEdifact h s requestedSizeIdx)
      else if current = DmtxSchemeBase256
      then Some (EncodeNextChunkBase256 h, \<lambda>s. CompleteIfDoneBase256 h s requestedSizeIdx)
      else None)"

definition dispatch_spec :: "externals \<Rightarrow> DmtxEncodeStream \<Rightarrow> int \<Rightarrow> DmtxEncodeStream" where
  "dispatch_spec h stream requestedSizeIdx =
     (case spec_sub_encoder h (currentScheme stream) requestedSizeIdx of
        None \<Rightarrow> StreamMarkFatal stream 1
      | Some (encode_chunk, complete_if_done) \<Rightarrow> if_encoding complete_if_done (encode_chunk stream))"

definition encode_next_chunk_spec ::
  "externals \<Rightarrow> DmtxEncodeStream \<Rightarrow> DmtxScheme \<Rightarrow> int \<Rightarrow> abort + DmtxEncodeStream" where
  "encode_next_chunk_spec h stream target requestedSizeIdx =
     (if currentScheme stream = target then Inr (dispatch_spec h stream requestedSizeIdx)
      else
        case EncodeChangeScheme h stream target DmtxUnlatchExplicit of
          Inl a \<Rightarrow> Inl a
        | Inr changed \<Rightarrow>
            Inr (if_encoding
                   (\<lambda>s. if currentScheme s = target
                        then dispatch_spec h s requestedSizeIdx
                        else StreamMarkFatal s 1)
                   changed))"

text \<open>
  The stream after \<open>n\<close> successive calls of \<^verbatim>\<open>EncodeNextChunk\<close>, and what it is for the
  loop to make exactly \<open>n\<close> calls: each of them finds the status Encoding, and the
  stream they leave has another status.
\<close>

primrec EncodeNextChunk_times ::
  "externals \<Rightarrow> DmtxScheme \<Rightarrow> int \<Rightarrow> nat \<Rightarrow> DmtxEncodeStream \<Rightarrow> abort + DmtxEncodeStream" where
  "EncodeNextChunk_times h target requestedSizeIdx 0 stream = Inr stream"
| "EncodeNextChunk_times h target requestedSizeIdx (Suc n) stream =
     (case EncodeNextChunk h stream target requestedSizeIdx of
        Inl a \<Rightarrow> Inl a
      | Inr s \<Rightarrow> EncodeNextChunk_times h target requestedSizeIdx n s)"

definition encoding_after ::
  "externals \<Rightarrow> DmtxScheme \<Rightarrow> int \<Rightarrow> DmtxEncodeStream \<Rightarrow> nat \<Rightarrow> bool" where
  "encoding_after h target requestedSizeIdx stream k =
     (case EncodeNextChunk_times h target requestedSizeIdx k stream of
        Inl a \<Rightarrow> False
      | Inr s \<Rightarrow> status s = DmtxStatusEncoding)"

definition loop_makes_calls ::
  "externals \<Rightarrow> DmtxScheme \<Rightarrow> int \<Rightarrow> DmtxEncodeStream \<Rightarrow> nat \<Rightarrow> DmtxEncodeStream \<Rightarrow> bool" where
  "loop_makes_calls h target requestedSizeIdx stream n final =
     ((\<forall>k \<in> {..<n}. encoding_after h target requestedSizeIdx stream k)
      \<and> EncodeNextChunk_times h target requestedSizeIdx n stream = Inr final
      \<and> status final \<noteq> DmtxStatusEncoding)"

subsection \<open>A small instance of the routines of the other files\<close>

text \<open>
  An instance of the external routines, to run the dispatcher on concrete streams. It
  holds what the specification states in full: the value emitters, the initial Base 256
  header, the ASCII sub-encoder without the optional digit pairs, and the finalizer over
  a list of symbol capacities. The chunk encoders of the other schemes need tables that
  the specification does not give; the instance rejects their chunks as Invalid.
\<close>

text \<open>
  Modelled from the spec: \<^verbatim>\<open>StreamOutputChainAppend\<close> of \<^verbatim>\<open>dmtxencodestream.c\<close>. A
  codeword appended to the output is one more word of the current chain (section 3,
  \<^verbatim>\<open>outputChainWordCount\<close>).
\<close>

definition StreamOutputChainAppend :: "DmtxEncodeStream \<Rightarrow> DmtxByte \<Rightarrow> DmtxEncodeStream" where
  "StreamOutputChainAppend stream v =
     stream\<lparr>outputList := outputList stream @ [v],
            outputChainWordCount := outputChainWordCount stream + 1\<rparr>"

text \<open>
  Modelled from the spec: \<^verbatim>\<open>EncodeValueAscii\<close>. One codeword per value (section 4.2),
  written only while the stream is in ASCII; a latch is a value of the chain it is
  written in (section 3).
\<close>

definition sample_EncodeValueAscii :: "DmtxEncodeStream \<Rightarrow> DmtxByte \<Rightarrow> DmtxEncodeStream" where
  "sample_EncodeValueAscii stream v =
     (if currentScheme stream \<noteq> DmtxSchemeAscii then StreamMarkFatal stream 1
      else (StreamOutputChainAppend stream v)
             \<lparr>outputChainValueCount := outputChainValueCount stream + 1\<rparr>)"

text \<open>
  Modelled from the spec: \<^verbatim>\<open>EncodeUnlatchCTX\<close>. The C40/Text/X12 unlatch is the codeword
  254 (sections 4.1 and 6), a value of the chain being left.
\<close>

definition sample_EncodeUnlatchCTX :: "DmtxEncodeStream \<Rightarrow> DmtxEncodeStream" where
  "sample_EncodeUnlatchCTX stream =
     (StreamOutputChainAppend stream DmtxValueCTXUnlatch)
       \<lparr>outputChainValueCount := outputChainValueCount stream + 1\<rparr>"

text \<open>
  Modelled from the spec: \<^verbatim>\<open>EncodeValueEdifact\<close>. Four six-bit values are packed into
  three codewords, most significant bit first; bits not yet written are zero
  (section 4.4). The position inside the group of four is the value count modulo 4.
\<close>

definition sample_EncodeValueEdifact :: "DmtxEncodeStream \<Rightarrow> DmtxByte \<Rightarrow> DmtxEncodeStream" where
  "sample_EncodeValueEdifact stream v =
     (let six = take_bit 6 v;
          k = outputChainValueCount stream mod 4;
          out = outputList stream;
          counted = stream\<lparr>outputChainValueCount := outputChainValueCount stream + 1\<rparr>
      in if k = 0 then StreamOutputChainAppend counted (push_bit 2 six)
         else if out = [] then StreamMarkFatal stream 1
         else if k = 1
         then StreamOutputChainAppend
                (counted\<lparr>outputList := butlast out @ [or (last out) (drop_bit 4 six)]\<rparr>)
                (push_bit 4 six)
         else if k = 2
         then StreamOutputChainAppend
                (counted\<lparr>outputList := butlast out @ [or (last out) (drop_bit 2 six)]\<rparr>)
                (push_bit 6 six)
         else counted\<lparr>outputList := butlast out @ [or (last out) six]\<rparr>)"

text \<open>
  Modelled from the spec: \<^verbatim>\<open>UpdateBase256ChainHeader\<close>, as the scheme change calls it
  on a chain that has just been started. It writes the initial header byte: the value 0
  (the sentinel length), randomised with the 255-state function at its 1-based output
  position (sections 4.1 and 4.5). The word count of the chain is reset to 0 on a header
  update, and a header byte is not a value of the chain (section 3). The later rewrites
  of the header, as the chain grows, are not part of this instance.
\<close>

definition sample_UpdateBase256ChainHeader :: "DmtxEncodeStream \<Rightarrow> int \<Rightarrow> DmtxEncodeStream" where
  "sample_UpdateBase256ChainHeader stream perfectSizeIdx =
     stream\<lparr>outputList := outputList stream
                @ [Randomize255State2 0 (int (length (outputList stream)) + 1)],
            outputChainWordCount := 0\<rparr>"

text \<open>
  Modelled from the spec: \<^verbatim>\<open>EncodeNextChunkAscii\<close>. One input byte per chunk: a byte
  below 128 is the codeword one above it, a larger byte is the upper shift 235 followed
  by the byte less 128 encoded the same way (section 4.2).
\<close>

definition sample_EncodeNextChunkAscii :: "DmtxEncodeStream \<Rightarrow> DmtxEncodeStream" where
  "sample_EncodeNextChunkAscii stream =
     (if StreamInputHasNext stream
      then
        (let v = input stream ! inputNext stream;
             advanced = stream\<lparr>inputNext := inputNext stream + 1\<rparr>
         in if uint v < 128 then sample_EncodeValueAscii advanced (v + 1)
            else if_encoding (\<lambda>s. sample_EncodeValueAscii s (v - 128 + 1))
                   (sample_EncodeValueAscii advanced DmtxValueAsciiUpperShift))
      else stream)"

text \<open>
  Modelled from the spec: the symbol oracle's \<^verbatim>\<open>find_symbol_size\<close> over a list of
  capacities in increasing order: the smallest capacity that holds the words when the
  request is the sentinel, the requested one if it holds them, nothing otherwise
  (section 4.7).
\<close>

definition sample_find_symbol_size :: "nat list \<Rightarrow> nat \<Rightarrow> int \<Rightarrow> nat option" where
  "sample_find_symbol_size capacities words requested =
     (if requested = - 1 then find (\<lambda>c. words \<le> c) capacities
      else if 0 \<le> requested \<and> nat requested < length capacities
              \<and> words \<le> capacities ! nat requested
      then Some (capacities ! nat requested)
      else None)"

text \<open>
  Modelled from the spec: the finalizer's padding. The first pad is the literal 129, each
  later one the 253-state randomisation of 129 at its 1-based output position
  (section 4.6).
\<close>

primrec sample_randomized_pads :: "nat \<Rightarrow> DmtxEncodeStream \<Rightarrow> DmtxEncodeStream" where
  "sample_randomized_pads 0 stream = stream"
| "sample_randomized_pads (Suc n) stream =
     sample_randomized_pads n
       (StreamOutputChainAppend stream
          (word_of_int (Randomize253State2_tmp DmtxValueAsciiPad
             (int (length (outputList stream)) + 1))))"

definition sample_pad :: "nat \<Rightarrow> DmtxEncodeStream \<Rightarrow> DmtxEncodeStream" where
  "sample_pad n stream =
     (case n of
        0 \<Rightarrow> stream
      | Suc m \<Rightarrow> sample_randomized_pads m (StreamOutputChainAppend stream DmtxValueAsciiPad))"

text \<open>
  Modelled from the spec: \<^verbatim>\<open>CompleteIfDoneAscii\<close>. Once the input is exhausted the
  output is padded to the capacity of the symbol found and the stream is Complete; with
  no symbol that fits it is Invalid (sections 4.2, 4.6 and 4.7).
\<close>

definition sample_CompleteIfDoneAscii :: "nat list \<Rightarrow> DmtxEncodeStream \<Rightarrow> int \<Rightarrow> DmtxEncodeStream" where
  "sample_CompleteIfDoneAscii capacities stream requestedSizeIdx =
     (if StreamInputHasNext stream then stream
      else
        case sample_find_symbol_size capacities (length (outputList stream)) requestedSizeIdx of
          None \<Rightarrow> StreamMarkInvalid stream 1
        | Some capacity \<Rightarrow>
            (sample_pad (capacity - length (outputList stream)) stream)
              \<lparr>status := DmtxStatusComplete\<rparr>)"

text \<open>
  Modelled from the spec: the routines together, over a list of symbol capacities, with
  \<open>- 1\<close> for the sentinel size index.
\<close>

definition sample_externals :: "nat list \<Rightarrow> externals" where
  "sample_externals capacities =
     \<lparr>DmtxUndefined = - 1,
      EncodeNextChunkAscii = sample_EncodeNextChunkAscii,
      CompleteIfDoneAscii = sample_CompleteIfDoneAscii capacities,
      EncodeNextChunkCTX = (\<lambda>stream requestedSizeIdx. StreamMarkInvalid stream 1),
      CompleteIfDoneCTX = (\<lambda>stream requestedSizeIdx. stream),
      EncodeNextChunkEdifact = (\<lambda>stream. StreamMarkInvalid stream 1),
      CompleteIfDoneEdifact = (\<lambda>stream requestedSizeIdx. stream),
      EncodeNextChunkBase256 = (\<lambda>stream. StreamMarkInvalid stream 1),
      CompleteIfDoneBase256 = (\<lambda>stream requestedSizeIdx. stream),
      EncodeUnlatchCTX = sample_EncodeUnlatchCTX,
      EncodeValueEdifact = sample_EncodeValueEdifact,
      EncodeValueAscii = sample_EncodeValueAscii,
      UpdateBase256ChainHeader = sample_UpdateBase256ChainHeader\<rparr>"

text \<open>
  Modelled from the spec: a fresh stream over an input. Its scheme is ASCII, its status
  Encoding, and nothing is read or written yet (section 3).
\<close>

definition StreamInit :: "DmtxByte list \<Rightarrow> DmtxEncodeStream" where
  "StreamInit bytes =
     \<lparr>currentScheme = DmtxSchemeAscii,
      inputNext = 0,
      outputChainValueCount = 0,
      outputChainWordCount = 0,
      reason = 0,
      status = DmtxStatusEncoding,
      input = bytes,
      outputList = []\<rparr>"

section \<open>Properties\<close>

subsection \<open>Facts about the C arithmetic\<close>

lemma c_rem_nonneg: "0 \<le> a \<Longrightarrow> 0 < b \<Longrightarrow> c_rem a b = a mod b"
  by (cases "a = 0") (simp_all add: c_rem_def)

lemma int32_wrap_in_range:
  assumes "- 2147483648 \<le> x" and "x < 2147483648"
  shows "int32_wrap x = x"
proof -
  have "(x + 2147483648) mod 4294967296 = x + 2147483648"
    using assms by (intro mod_pos_pos_trivial) linarith+
  then show ?thesis by (simp add: int32_wrap_def)
qed

lemma position_product_in_int_range:
  assumes "0 \<le> p" and "p \<le> 14412641"
  shows "int32_wrap (149 * p) = 149 * p"
  using assms by (intro int32_wrap_in_range) linarith+

lemma pseudoRandom253_value:
  assumes "0 \<le> p" and "p \<le> 14412641"
  shows "c_rem (int32_wrap (149 * p)) 253 = (149 * p) mod 253"
  using assms by (simp add: position_product_in_int_range c_rem_nonneg)

lemma pseudoRandom255_value:
  assumes "0 \<le> p" and "p \<le> 14412641"
  shows "c_rem (int32_wrap (149 * p)) 255 = (149 * p) mod 255"
  using assms by (simp add: position_product_in_int_range c_rem_nonneg)

lemma uint_byte_range: "0 \<le> uint (v :: DmtxByte) \<and> uint v \<le> 255"
proof -
  have "uint v < 2 ^ LENGTH(8)" by (rule uint_lt2p)
  then show ?thesis by simp
qed

lemma uint_byte_of_int: "0 \<le> x \<Longrightarrow> x < 256 \<Longrightarrow> uint (word_of_int x :: DmtxByte) = x"
  by (simp add: uint_word_of_int)

subsection \<open>The randomisation functions\<close>

lemma Randomize253State2_tmp_unfold:
  assumes "0 \<le> p" and "p \<le> 14412641"
  shows "Randomize253State2_tmp v p =
           (if uint v + ((149 * p) mod 253 + 1) > 254
            then uint v + ((149 * p) mod 253 + 1) - 254
            else uint v + ((149 * p) mod 253 + 1))"
proof -
  have c: "c_rem (int32_wrap (149 * p)) 253 = (149 * p) mod 253"
    using assms by (rule pseudoRandom253_value)
  show ?thesis
    by (simp only: Randomize253State2_tmp_def Let_def c)
qed

lemma Randomize253State2_tmp_range:
  assumes "0 \<le> p" and "p \<le> 14412641"
  shows "1 \<le> Randomize253State2_tmp v p \<and> Randomize253State2_tmp v p \<le> 254"
proof -
  define t where "t = uint v + ((149 * p) mod 253 + 1)"
  have m: "0 \<le> (149 * p) mod 253" "(149 * p) mod 253 < 253" by simp_all
  have v: "0 \<le> uint v \<and> uint v \<le> 255" by (rule uint_byte_range)
  have t: "1 \<le> t" "t \<le> 508" using m v by (simp_all add: t_def)
  have "Randomize253State2_tmp v p = (if t > 254 then t - 254 else t)"
    unfolding t_def using assms by (rule Randomize253State2_tmp_unfold)
  then show ?thesis
    using t by (cases "t > 254") simp_all
qed

lemma Randomize253State2_value:
  assumes "0 \<le> p" and "p \<le> 14412641"
  shows "Randomize253State2 v p = Inr (word_of_int (Randomize253State2_tmp v p))
         \<and> uint (word_of_int (Randomize253State2_tmp v p) :: DmtxByte) = Randomize253State2_tmp v p"
proof -
  have t: "1 \<le> Randomize253State2_tmp v p \<and> Randomize253State2_tmp v p \<le> 254"
    using assms by (rule Randomize253State2_tmp_range)
  then have "uint (word_of_int (Randomize253State2_tmp v p) :: DmtxByte) = Randomize253State2_tmp v p"
    by (intro uint_byte_of_int) linarith+
  moreover have "Randomize253State2 v p = Inr (word_of_int (Randomize253State2_tmp v p))"
    using t by (simp add: Randomize253State2_def Let_def)
  ultimately show ?thesis by simp
qed

lemma Randomize253State2_tmp_congruent:
  assumes "0 \<le> p" and "p \<le> 14412641"
  shows "Randomize253State2_tmp v p mod 254 = (uint v + ((149 * p) mod 253 + 1)) mod 254"
proof -
  define t where "t = uint v + ((149 * p) mod 253 + 1)"
  have "Randomize253State2_tmp v p = (if t > 254 then t - 254 else t)"
    unfolding t_def using assms by (rule Randomize253State2_tmp_unfold)
  moreover have "(t - 254) mod 254 = t mod 254"
    by (rule minus_mod_self2)
  ultimately show ?thesis
    unfolding t_def [symmetric] by (cases "t > 254") simp_all
qed

text \<open>
  C10, as the code has it. For every byte \<open>cwValue\<close> and every position from 0 to
  14412641, the positions whose product with 149 fits the \<^verbatim>\<open>int\<close>, the value of
  \<^verbatim>\<open>tmp\<close> after the conditional subtraction of 254 is at least 0 and below 256: the
  assertion of \<^verbatim>\<open>Randomize253State2\<close> holds, the function returns, and the byte it
  returns is \<^verbatim>\<open>tmp\<close> itself (the conversion to \<^verbatim>\<open>DmtxByte\<close> loses nothing).
\<close>

theorem Randomize253State2_assertion_holds:
  assumes "0 \<le> cwPosition" and "cwPosition \<le> 14412641"
  shows "0 \<le> Randomize253State2_tmp cwValue cwPosition
         \<and> Randomize253State2_tmp cwValue cwPosition < 256
         \<and> (\<exists>b. Randomize253State2 cwValue cwPosition = Inr b
                \<and> uint b = Randomize253State2_tmp cwValue cwPosition)"
proof -
  have t: "1 \<le> Randomize253State2_tmp cwValue cwPosition
           \<and> Randomize253State2_tmp cwValue cwPosition \<le> 254"
    using assms by (rule Randomize253State2_tmp_range)
  have "\<exists>b. Randomize253State2 cwValue cwPosition = Inr b
                \<and> uint b = Randomize253State2_tmp cwValue cwPosition"
    using Randomize253State2_value [OF assms, of cwValue] by blast
  moreover have "0 \<le> Randomize253State2_tmp cwValue cwPosition" using t by linarith
  moreover have "Randomize253State2_tmp cwValue cwPosition < 256" using t by linarith
  ultimately show ?thesis by (intro conjI)
qed

theorem Randomize253State2_assertion_holds_witness:
  "(0::int) \<le> 14412641 \<and> (14412641::int) \<le> 14412641
   \<and> Randomize253State2_tmp 255 14412641 = 30
   \<and> Randomize253State2 255 14412641 = Inr 30
   \<and> Randomize253State2_tmp 129 28 = 254
   \<and> Randomize253State2 129 28 = Inr 254"
  using Randomize253State2_assertion_holds [of 14412641 255]
  by (simp add: Randomize253State2_def Randomize253State2_tmp_def c_rem_def int32_wrap_def)

text \<open>
  At position 14412642 the product 2147483658 no longer fits the \<^verbatim>\<open>int\<close>: it wraps to
  a negative number, the remainder is negative, and for the byte 0 the value of
  \<^verbatim>\<open>tmp\<close> is negative. The assertion fails.
\<close>

theorem Randomize253State2_assertion_holds_counterexample:
  "(0::int) \<le> 14412642
   \<and> Randomize253State2_tmp 0 14412642 = - 156
   \<and> \<not> (0 \<le> Randomize253State2_tmp 0 14412642)
   \<and> Randomize253State2 0 14412642 = Inl AssertionFailed"
  by (simp add: Randomize253State2_def Randomize253State2_tmp_def c_rem_def int32_wrap_def)

lemma Randomize255State2_uint:
  assumes "0 \<le> p" and "p \<le> 14412641"
  shows "uint (Randomize255State2 v p) = (uint v + ((149 * p) mod 255) + 1) mod 256"
proof -
  have c: "c_rem (int32_wrap (149 * p)) 255 = (149 * p) mod 255"
    using assms by (rule pseudoRandom255_value)
  have r: "0 \<le> (149 * p) mod 255" "(149 * p) mod 255 < 255" by simp_all
  have v: "0 \<le> uint v \<and> uint v \<le> 255" by (rule uint_byte_range)
  define t where "t = uint v + ((149 * p) mod 255 + 1)"
  have tr: "1 \<le> t" "t \<le> 510" using r v by (simp_all add: t_def)
  have eq: "Randomize255State2 v p = word_of_int (if t \<le> 255 then t else t - 256)"
    by (simp only: Randomize255State2_def Let_def c t_def)
  have "uint (word_of_int (if t \<le> 255 then t else t - 256) :: DmtxByte) = t mod 256"
  proof (cases "t \<le> 255")
    case True
    then show ?thesis using tr by (simp add: uint_word_of_int)
  next
    case False
    have "(t - 256) mod 256 = t mod 256" by (rule minus_mod_self2)
    then show ?thesis using False by (simp only: uint_word_of_int if_False) simp
  qed
  then show ?thesis
    unfolding eq by (simp only: t_def add.assoc)
qed

text \<open>
  C4, as the code has it. For every byte \<open>v\<close> and every 1-based position \<open>p\<close> up to
  14412641, the positions whose product with 149 fits the \<^verbatim>\<open>int\<close>,
  \<^verbatim>\<open>Randomize255State2(v, p)\<close> is \<open>(v + ((149 * p) mod 255) + 1) mod 256\<close>.
\<close>

theorem Randomize255State2_formula:
  assumes "1 \<le> p" and "p \<le> 14412641"
  shows "uint (Randomize255State2 v p) = (uint v + ((149 * p) mod 255) + 1) mod 256"
  using assms by (intro Randomize255State2_uint) linarith+

theorem Randomize255State2_formula_witness:
  "(1::int) \<le> 3 \<and> (3::int) \<le> 14412641 \<and> Randomize255State2 200 3 = 137
   \<and> (uint (200 :: DmtxByte) + ((149 * 3) mod 255) + 1) mod 256 = 137"
  using Randomize255State2_formula [of 3 200]
  by (simp add: Randomize255State2_def c_rem_def int32_wrap_def)

text \<open>
  At the largest position an \<^verbatim>\<open>int\<close> holds, the product wraps around and the function
  returns 235 for the byte 0, where the formula gives 54.
\<close>

theorem Randomize255State2_formula_counterexample:
  "(1::int) \<le> 2147483647
   \<and> Randomize255State2 0 2147483647 = 235
   \<and> (uint (0 :: DmtxByte) + ((149 * 2147483647) mod 255) + 1) mod 256 = 54
   \<and> uint (Randomize255State2 0 2147483647)
       \<noteq> (uint (0 :: DmtxByte) + ((149 * 2147483647) mod 255) + 1) mod 256"
  by (simp add: Randomize255State2_def c_rem_def int32_wrap_def)

lemma Randomize255State2_recover:
  assumes "0 \<le> p" and "p \<le> 14412641"
  shows "(uint (Randomize255State2 v p) - ((149 * p) mod 255 + 1)) mod 256 = uint v"
proof -
  define r where "r = (149 * p) mod 255 + 1"
  have v: "0 \<le> uint v \<and> uint v \<le> 255" by (rule uint_byte_range)
  have "uint (Randomize255State2 v p) = (uint v + r) mod 256"
    using Randomize255State2_uint [OF assms, of v] by (simp add: r_def add.assoc)
  then have "(uint (Randomize255State2 v p) - r) mod 256 = ((uint v + r) mod 256 - r) mod 256"
    by simp
  also have "\<dots> = (uint v + r - r) mod 256"
    by (rule mod_diff_left_eq)
  also have "\<dots> = uint v"
    using v by simp
  finally show ?thesis by (simp only: r_def)
qed

lemma Randomize253State2_recover:
  assumes "0 \<le> p" and "p \<le> 14412641" and "uint v \<le> 253"
  shows "\<exists>r. Randomize253State2 v p = Inr r
              \<and> (uint r - ((149 * p) mod 253 + 1)) mod 254 = uint v"
proof -
  define q where "q = (149 * p) mod 253 + 1"
  define r :: DmtxByte where "r = word_of_int (Randomize253State2_tmp v p)"
  have v: "0 \<le> uint v" by simp
  have val: "Randomize253State2 v p = Inr r" "uint r = Randomize253State2_tmp v p"
    using Randomize253State2_value [OF assms(1,2), of v] by (simp_all add: r_def)
  have h: "uint r mod 254 = (uint v + q) mod 254"
    using Randomize253State2_tmp_congruent [OF assms(1,2), of v] by (simp only: val q_def)
  have "(uint r - q) mod 254 = (uint r mod 254 - q) mod 254"
    by (rule mod_diff_left_eq [symmetric])
  also have "\<dots> = ((uint v + q) mod 254 - q) mod 254"
    by (simp only: h)
  also have "\<dots> = (uint v + q - q) mod 254"
    by (rule mod_diff_left_eq)
  also have "\<dots> = uint v"
    using v assms(3) by simp
  finally show ?thesis
    using val(1) by (auto simp only: q_def)
qed

text \<open>
  C8, as the code has it. At every 1-based position \<open>p\<close> up to 14412641, the positions
  whose product with 149 fits the \<^verbatim>\<open>int\<close>, subtracting \<open>((149 * p) mod 255) + 1\<close> from
  \<^verbatim>\<open>Randomize255State2(v, p)\<close> modulo 256 gives \<open>v\<close> back, and subtracting
  \<open>((149 * p) mod 253) + 1\<close> from \<^verbatim>\<open>Randomize253State2(w, p)\<close> modulo 254 gives
  \<open>w\<close> back for \<open>w\<close> in 0..253. So both functions are injective at these positions,
  the second one on 0..253.
\<close>

theorem randomization_invertible:
  assumes "1 \<le> p" and "p \<le> 14412641"
  shows "(uint (Randomize255State2 v p) - ((149 * p) mod 255 + 1)) mod 256 = uint v
         \<and> (uint w \<le> 253 \<longrightarrow>
              (\<exists>r. Randomize253State2 w p = Inr r
                   \<and> (uint r - ((149 * p) mod 253 + 1)) mod 254 = uint w))
         \<and> inj (\<lambda>b. Randomize255State2 b p)
         \<and> inj_on (\<lambda>b. Randomize253State2 b p) {b. uint b \<le> 253}"
proof -
  have p: "0 \<le> p" using assms(1) by linarith
  have a: "(uint (Randomize255State2 v p) - ((149 * p) mod 255 + 1)) mod 256 = uint v" for v
    using p assms(2) by (rule Randomize255State2_recover)
  have b: "\<exists>r. Randomize253State2 w p = Inr r
              \<and> (uint r - ((149 * p) mod 253 + 1)) mod 254 = uint w"
    if "uint w \<le> 253" for w
    using p assms(2) that by (rule Randomize253State2_recover)
  have c: "inj (\<lambda>b. Randomize255State2 b p)"
  proof (rule injI)
    fix x y :: DmtxByte
    assume "Randomize255State2 x p = Randomize255State2 y p"
    then have "uint x = uint y" using a [of x] a [of y] by simp
    then show "x = y" by (rule word_uint_eqI)
  qed
  have d: "inj_on (\<lambda>b. Randomize253State2 b p) {b. uint b \<le> 253}"
  proof (rule inj_onI)
    fix x y :: DmtxByte
    assume x: "x \<in> {b. uint b \<le> 253}" and y: "y \<in> {b. uint b \<le> 253}"
      and eq: "Randomize253State2 x p = Randomize253State2 y p"
    obtain rx where rx: "Randomize253State2 x p = Inr rx"
      "(uint rx - ((149 * p) mod 253 + 1)) mod 254 = uint x"
      using b [of x] x by auto
    obtain ry where ry: "Randomize253State2 y p = Inr ry"
      "(uint ry - ((149 * p) mod 253 + 1)) mod 254 = uint y"
      using b [of y] y by auto
    have "rx = ry" using eq rx(1) ry(1) by simp
    then have "uint x = uint y" using rx(2) ry(2) by simp
    then show "x = y" by (rule word_uint_eqI)
  qed
  show ?thesis
  proof (intro conjI impI)
    show "(uint (Randomize255State2 v p) - ((149 * p) mod 255 + 1)) mod 256 = uint v"
      by (rule a)
    show "\<exists>r. Randomize253State2 w p = Inr r
              \<and> (uint r - ((149 * p) mod 253 + 1)) mod 254 = uint w" if "uint w \<le> 253"
      using that by (rule b)
    show "inj (\<lambda>b. Randomize255State2 b p)" by (rule c)
    show "inj_on (\<lambda>b. Randomize253State2 b p) {b. uint b \<le> 253}" by (rule d)
  qed
qed

theorem randomization_invertible_witness:
  "(1::int) \<le> 28 \<and> (28::int) \<le> 14412641
   \<and> Randomize255State2 255 28 = 92
   \<and> (uint (92 :: DmtxByte) - ((149 * 28) mod 255 + 1)) mod 256 = 255
   \<and> uint (253 :: DmtxByte) \<le> 253
   \<and> Randomize253State2 253 28 = Inr 124
   \<and> (uint (124 :: DmtxByte) - ((149 * 28) mod 253 + 1)) mod 254 = 253"
  using randomization_invertible [of 28 255 253]
  by (simp add: Randomize255State2_def Randomize253State2_def Randomize253State2_tmp_def
      c_rem_def int32_wrap_def)

text \<open>
  At the largest position an \<^verbatim>\<open>int\<close> holds, the 255-state function returns 235 for the
  byte 0, and subtracting \<open>((149 * p) mod 255) + 1 = 54\<close> gives 181, not 0. At position
  14412642 the 253-state function does not return for the byte 0: its assertion fails.
\<close>

theorem randomization_invertible_counterexample:
  "(1::int) \<le> 2147483647
   \<and> Randomize255State2 0 2147483647 = 235
   \<and> (uint (235 :: DmtxByte) - ((149 * 2147483647) mod 255 + 1)) mod 256 = 181
   \<and> (uint (Randomize255State2 0 2147483647) - ((149 * 2147483647) mod 255 + 1)) mod 256
       \<noteq> uint (0 :: DmtxByte)
   \<and> uint (0 :: DmtxByte) \<le> 253
   \<and> Randomize253State2 0 14412642 = Inl AssertionFailed"
  by (simp add: Randomize255State2_def Randomize253State2_def Randomize253State2_tmp_def
      c_rem_def int32_wrap_def)

text \<open>
  C3, as the code has it. With \<open>t = 129 + ((149 * p) mod 253) + 1\<close>, the randomised pad at
  a 1-based position \<open>p\<close> up to 14412641, the positions whose product with 149 fits the
  \<^verbatim>\<open>int\<close>, is \<open>t\<close> when \<open>t \<le> 254\<close> and \<open>t - 254\<close> otherwise. It lies in 1..254, and
  it is \<open>t mod 254\<close> at every such position except those where
  \<open>(149 * p) mod 253 = 124\<close>, that is \<open>t = 254\<close>: there the pad is 254.
\<close>

theorem Randomize253State2_pad:
  assumes "1 \<le> p" and "p \<le> 14412641"
  shows "\<exists>r. Randomize253State2 129 p = Inr r
             \<and> uint r = (if 129 + ((149 * p) mod 253) + 1 \<le> 254
                         then 129 + ((149 * p) mod 253) + 1
                         else 129 + ((149 * p) mod 253) + 1 - 254)
             \<and> 1 \<le> uint r \<and> uint r \<le> 254
             \<and> ((149 * p) mod 253 \<noteq> 124 \<longrightarrow>
                  uint r = (129 + ((149 * p) mod 253) + 1) mod 254)"
proof -
  have p: "0 \<le> p" using assms(1) by linarith
  note b = assms(2)
  define m where "m = (149 * p) mod 253"
  define t where "t = 129 + m + 1"
  define r :: DmtxByte where "r = word_of_int (Randomize253State2_tmp 129 p)"
  have m: "0 \<le> m" "m < 253" by (simp_all add: m_def)
  have val: "Randomize253State2 129 p = Inr r" "uint r = Randomize253State2_tmp 129 p"
    using Randomize253State2_value [OF p b, of 129] by (simp_all only: r_def)
  have u: "uint (129 :: DmtxByte) = 129" by simp
  have t': "uint (129 :: DmtxByte) + ((149 * p) mod 253 + 1) = t"
    by (simp only: u t_def m_def add.assoc)
  have "Randomize253State2_tmp 129 p = (if t > 254 then t - 254 else t)"
    using Randomize253State2_tmp_unfold [OF p b, of 129] by (simp only: t')
  then have tmp: "uint r = (if t \<le> 254 then t else t - 254)"
    by (cases "t \<le> 254") (simp_all add: val)
  have rng: "1 \<le> uint r \<and> uint r \<le> 254"
    using Randomize253State2_tmp_range [OF p b, of 129] by (simp only: val)
  have md: "uint r = t mod 254" if "m \<noteq> 124"
  proof (cases "t \<le> 254")
    case True
    then have "0 \<le> t" "t < 254" using that m by (simp_all add: t_def)
    then have "t mod 254 = t" by (rule mod_pos_pos_trivial)
    then show ?thesis using True tmp by simp
  next
    case False
    have "(t - 254) mod 254 = t mod 254" by (rule minus_mod_self2)
    moreover have "(t - 254) mod 254 = t - 254"
      using False m by (intro mod_pos_pos_trivial) (simp_all add: t_def)
    ultimately show ?thesis using False tmp by simp
  qed
  have main: "Randomize253State2 129 p = Inr r
        \<and> uint r = (if t \<le> 254 then t else t - 254)
        \<and> 1 \<le> uint r \<and> uint r \<le> 254
        \<and> (m \<noteq> 124 \<longrightarrow> uint r = t mod 254)"
  proof (intro conjI impI)
    show "Randomize253State2 129 p = Inr r" by (rule val(1))
    show "uint r = (if t \<le> 254 then t else t - 254)" by (rule tmp)
    show "1 \<le> uint r" using rng by (rule conjunct1)
    show "uint r \<le> 254" using rng by (rule conjunct2)
    show "uint r = t mod 254" if "m \<noteq> 124" using that by (rule md)
  qed
  show ?thesis
    by (rule exI [of _ r]) (rule main [unfolded t_def m_def])
qed

theorem Randomize253State2_pad_witness:
  "(1::int) \<le> 5 \<and> (5::int) \<le> 14412641 \<and> Randomize253State2 129 5 = Inr 115
   \<and> (129 + ((149 * 5) mod 253) + 1) mod 254 = (115::int)"
  using Randomize253State2_pad [of 5]
  by (simp add: Randomize253State2_def Randomize253State2_tmp_def c_rem_def int32_wrap_def)

text \<open>
  At position 28 the sum \<open>t\<close> is exactly 254. The code subtracts only when
  \<open>t > 254\<close>, so the pad is 254: it is not \<open>t mod 254 = 0\<close>, and it is outside 0..253.
  At position 14412642 the product with 149 wraps around, \<^verbatim>\<open>tmp\<close> is \<open>- 27\<close> and the
  assertion fails: there is no pad.
\<close>

theorem Randomize253State2_pad_counterexample:
  "Randomize253State2 129 28 = Inr 254
   \<and> uint (254 :: DmtxByte) \<noteq> (129 + ((149 * 28) mod 253) + 1) mod 254
   \<and> \<not> uint (254 :: DmtxByte) \<le> 253
   \<and> Randomize253State2_tmp 129 14412642 = - 27
   \<and> Randomize253State2 129 14412642 = Inl AssertionFailed"
  by (simp add: Randomize253State2_def Randomize253State2_tmp_def c_rem_def int32_wrap_def)

subsection \<open>The scheme dispatcher\<close>

lemma CHKERR_encoding: "status s = DmtxStatusEncoding \<Longrightarrow> CHKERR s = Continue s"
  by (simp add: CHKERR_def)

lemma CHKERR_Return: "CHKERR s = Return s' \<Longrightarrow> s' = s \<and> status s \<noteq> DmtxStatusEncoding"
  by (simp add: CHKERR_def split: if_splits)

lemma CHKERR_Continue: "CHKERR s = Continue s' \<Longrightarrow> s' = s \<and> status s = DmtxStatusEncoding"
  by (simp add: CHKERR_def split: if_splits)

lemma CHKSCHEME_same: "currentScheme s = c \<Longrightarrow> CHKSCHEME c s = Continue s"
  by (simp add: CHKSCHEME_def)

lemma EncodeChangeScheme_unlatch_spec:
  assumes "status s = DmtxStatusEncoding" and "\<forall>k. currentScheme s \<noteq> DmtxSchemeOther k"
  shows "EncodeChangeScheme_unlatch h s ul =
           Inr (CHKERR (case spec_unlatch (currentScheme s) ul of
                          None \<Rightarrow> s
                        | Some w \<Rightarrow> emit_unlatch h w s))"
  using assms
  by (cases "currentScheme s"; cases ul)
    (simp_all add: EncodeChangeScheme_unlatch_def spec_unlatch_def emit_unlatch_def
      CHKERR_encoding DmtxValueEdifactUnlatch_def)

lemma EncodeChangeScheme_latch_spec:
  assumes "status s = DmtxStatusEncoding"
  shows "EncodeChangeScheme_latch h (s\<lparr>currentScheme := DmtxSchemeAscii\<rparr>) target =
           CHKERR (case spec_latch target of
                     None \<Rightarrow> s\<lparr>currentScheme := DmtxSchemeAscii\<rparr>
                   | Some c \<Rightarrow> EncodeValueAscii h (s\<lparr>currentScheme := DmtxSchemeAscii\<rparr>) c)"
  using assms
  by (cases target)
    (simp_all add: EncodeChangeScheme_latch_def spec_latch_def CHKERR_encoding CHKSCHEME_same
      DmtxValueC40Latch_def DmtxValueTextLatch_def DmtxValueX12Latch_def
      DmtxValueEdifactLatch_def DmtxValueBase256Latch_def)

text \<open>
  C2. For every stream in status Encoding whose current scheme is one of the six schemes
  and differs from the target, \<^verbatim>\<open>EncodeChangeScheme\<close> is the procedure of the
  specification: the unlatch of \<open>spec_unlatch\<close> is emitted (the CTX unlatch exactly
  when the current scheme is C40, Text or X12 and the unlatch is explicit, the EDIFACT
  unlatch value 31 exactly when the current scheme is EDIFACT and the unlatch is
  explicit, none for ASCII and Base 256), the current scheme is set to ASCII, the latch
  codeword of \<open>spec_latch\<close> is emitted in ASCII (230, 239, 238, 240, 231, none for
  ASCII), the current scheme is set to the target, the chain counters are reset, and a
  Base 256 target gets its header. Each step after an emitter is taken only while the
  status is still Encoding.
\<close>

theorem EncodeChangeScheme_procedure:
  assumes "status stream = DmtxStatusEncoding"
    and "currentScheme stream \<noteq> targetScheme"
    and "\<forall>k. currentScheme stream \<noteq> DmtxSchemeOther k"
  shows "EncodeChangeScheme h stream targetScheme unlatchType =
           Inr (change_scheme_spec h stream targetScheme unlatchType)"
proof -
  define u where "u = (case spec_unlatch (currentScheme stream) unlatchType of
                          None \<Rightarrow> stream
                        | Some w \<Rightarrow> emit_unlatch h w stream)"
  define L where "L = (\<lambda>s. case spec_latch targetScheme of
                     None \<Rightarrow> s\<lparr>currentScheme := DmtxSchemeAscii\<rparr>
                   | Some c \<Rightarrow> EncodeValueAscii h (s\<lparr>currentScheme := DmtxSchemeAscii\<rparr>) c)"
  define R where "R = (\<lambda>s :: DmtxEncodeStream. s\<lparr>currentScheme := targetScheme, outputChainWordCount := 0,
                               outputChainValueCount := 0\<rparr>)"
  define H where "H = (\<lambda>s. UpdateBase256ChainHeader h s (DmtxUndefined h))"
  have spec: "change_scheme_spec h stream targetScheme unlatchType =
                (if targetScheme = DmtxSchemeBase256
                 then if_encoding H (if_encoding R (if_encoding L u))
                 else if_encoding R (if_encoding L u))"
    by (simp only: change_scheme_spec_def Let_def u_def L_def R_def H_def)
  have un: "EncodeChangeScheme_unlatch h stream unlatchType = Inr (CHKERR u)"
    unfolding u_def using assms(1,3) by (rule EncodeChangeScheme_unlatch_spec)
  have la: "EncodeChangeScheme_latch h (u\<lparr>currentScheme := DmtxSchemeAscii\<rparr>) targetScheme = CHKERR (L u)"
    if "status u = DmtxStatusEncoding"
    unfolding L_def using that by (rule EncodeChangeScheme_latch_spec)
  have code: "EncodeChangeScheme h stream targetScheme unlatchType =
                (case CHKERR u of
                   Return s1 \<Rightarrow> Inr s1
                 | Continue s1 \<Rightarrow>
                     (case EncodeChangeScheme_latch h (s1\<lparr>currentScheme := DmtxSchemeAscii\<rparr>) targetScheme of
                        Return s2 \<Rightarrow> Inr s2
                      | Continue s2 \<Rightarrow>
                          if targetScheme = DmtxSchemeBase256 then Inr (H (R s2)) else Inr (R s2)))"
    unfolding EncodeChangeScheme_def Let_def R_def H_def using assms(2) by (simp add: un)
  show ?thesis
  proof (cases "status u = DmtxStatusEncoding")
    case False
    then show ?thesis
      by (simp add: code spec CHKERR_def if_encoding_def)
  next
    case True
    note u = this
    have st: "status (R s) = status s" for s by (simp add: R_def)
    show ?thesis
    proof (cases "status (L u) = DmtxStatusEncoding")
      case False
      then show ?thesis
        using u by (simp add: code spec CHKERR_def if_encoding_def la)
    next
      case True
      then show ?thesis
        using u by (simp add: code spec CHKERR_def if_encoding_def la st)
    qed
  qed
qed

text \<open>
  C9. If the target scheme is the stream's current scheme, \<^verbatim>\<open>EncodeChangeScheme\<close>
  returns at once with the stream it was given: no routine is called, no codeword is
  emitted, and every field keeps its value.
\<close>

theorem EncodeChangeScheme_same_scheme:
  assumes "targetScheme = currentScheme stream"
  shows "EncodeChangeScheme h stream targetScheme unlatchType = Inr stream"
  using assms by (simp add: EncodeChangeScheme_def)

lemma EncodeChangeScheme_unlatch_Return:
  "EncodeChangeScheme_unlatch h s ul = Inr (Return s') \<Longrightarrow> status s' \<noteq> DmtxStatusEncoding"
  by (cases "currentScheme s")
    (auto simp: EncodeChangeScheme_unlatch_def dest: CHKERR_Return split: if_splits)

lemma EncodeChangeScheme_latch_Return:
  "EncodeChangeScheme_latch h (s\<lparr>currentScheme := DmtxSchemeAscii\<rparr>) target = Return s'
     \<Longrightarrow> status s' \<noteq> DmtxStatusEncoding"
  by (cases target)
    (auto simp: EncodeChangeScheme_latch_def CHKSCHEME_def dest: CHKERR_Return split: if_splits)

lemma EncodeChangeScheme_latch_Base256_Continue:
  "EncodeChangeScheme_latch h s DmtxSchemeBase256 = Continue s' \<Longrightarrow> status s' = DmtxStatusEncoding"
  by (auto simp: EncodeChangeScheme_latch_def dest: CHKERR_Continue)

lemma EncodeChangeScheme_completed:
  assumes "currentScheme stream \<noteq> targetScheme"
    and "EncodeChangeScheme h stream targetScheme unlatchType = Inr s'"
    and "status s' = DmtxStatusEncoding"
  shows "(targetScheme \<noteq> DmtxSchemeBase256 \<longrightarrow>
            outputChainWordCount s' = 0 \<and> outputChainValueCount s' = 0
            \<and> currentScheme s' = targetScheme)
         \<and> (targetScheme = DmtxSchemeBase256 \<longrightarrow>
              (\<exists>s0. outputChainWordCount s0 = 0 \<and> outputChainValueCount s0 = 0
                    \<and> currentScheme s0 = DmtxSchemeBase256 \<and> status s0 = DmtxStatusEncoding
                    \<and> s' = UpdateBase256ChainHeader h s0 (DmtxUndefined h)))"
proof -
  obtain s1 where s1: "EncodeChangeScheme_unlatch h stream unlatchType = Inr (Continue s1)"
    using assms EncodeChangeScheme_unlatch_Return [of h stream unlatchType]
    by (auto simp: EncodeChangeScheme_def split: sum.splits flow.splits)
  obtain s2 where s2: "EncodeChangeScheme_latch h (s1\<lparr>currentScheme := DmtxSchemeAscii\<rparr>) targetScheme = Continue s2"
    using assms s1 EncodeChangeScheme_latch_Return [of h s1 targetScheme]
    by (auto simp: EncodeChangeScheme_def split: flow.splits)
  define s3 where "s3 = s2\<lparr>currentScheme := targetScheme, outputChainWordCount := 0,
                               outputChainValueCount := 0\<rparr>"
  have res: "s' = (if targetScheme = DmtxSchemeBase256
                   then UpdateBase256ChainHeader h s3 (DmtxUndefined h) else s3)"
    using assms(1,2) s1 s2 unfolding EncodeChangeScheme_def s3_def Let_def by (simp split: if_splits)
  show ?thesis
  proof (intro conjI impI)
    assume "targetScheme \<noteq> DmtxSchemeBase256"
    then have "s' = s3" using res by simp
    then show "outputChainWordCount s' = 0" "outputChainValueCount s' = 0"
      "currentScheme s' = targetScheme"
      by (simp_all add: s3_def)
  next
    assume b: "targetScheme = DmtxSchemeBase256"
    then have "status s2 = DmtxStatusEncoding"
      using s2 EncodeChangeScheme_latch_Base256_Continue by blast
    then have "outputChainWordCount s3 = 0 \<and> outputChainValueCount s3 = 0
                    \<and> currentScheme s3 = DmtxSchemeBase256 \<and> status s3 = DmtxStatusEncoding
                    \<and> s' = UpdateBase256ChainHeader h s3 (DmtxUndefined h)"
      using res b by (simp add: s3_def)
    then show "\<exists>s0. outputChainWordCount s0 = 0 \<and> outputChainValueCount s0 = 0
                    \<and> currentScheme s0 = DmtxSchemeBase256 \<and> status s0 = DmtxStatusEncoding
                    \<and> s' = UpdateBase256ChainHeader h s0 (DmtxUndefined h)"
      by (intro exI [of _ s3])
  qed
qed


text \<open>
  C7. With the header update of the specification, after every call of
  \<^verbatim>\<open>EncodeChangeScheme\<close> with a target other than the current scheme that leaves the
  status Encoding, \<^verbatim>\<open>outputChainWordCount\<close> and \<^verbatim>\<open>outputChainValueCount\<close> of the
  returned stream are both zero and its scheme is the target; and when the target is
  Base 256 the returned stream is the result of the header update on a stream with both
  counters zero, whose output it extends by the initial header byte.
\<close>

theorem EncodeChangeScheme_resets_chain:
  assumes "currentScheme stream \<noteq> targetScheme"
    and "UpdateBase256ChainHeader h = sample_UpdateBase256ChainHeader"
    and "EncodeChangeScheme h stream targetScheme unlatchType = Inr s'"
    and "status s' = DmtxStatusEncoding"
  shows "outputChainWordCount s' = 0 \<and> outputChainValueCount s' = 0
         \<and> currentScheme s' = targetScheme
         \<and> (targetScheme = DmtxSchemeBase256 \<longrightarrow>
              (\<exists>s0. outputChainWordCount s0 = 0 \<and> outputChainValueCount s0 = 0
                    \<and> currentScheme s0 = DmtxSchemeBase256 \<and> status s0 = DmtxStatusEncoding
                    \<and> s' = UpdateBase256ChainHeader h s0 (DmtxUndefined h)
                    \<and> outputList s' = outputList s0
                         @ [Randomize255State2 0 (int (length (outputList s0)) + 1)]))"
proof (cases "targetScheme = DmtxSchemeBase256")
  case False
  then show ?thesis
    using EncodeChangeScheme_completed [OF assms(1,3,4)] by simp
next
  case True
  then obtain s0 where s0: "outputChainWordCount s0 = 0" "outputChainValueCount s0 = 0"
    "currentScheme s0 = DmtxSchemeBase256" "status s0 = DmtxStatusEncoding"
    "s' = UpdateBase256ChainHeader h s0 (DmtxUndefined h)"
    using EncodeChangeScheme_completed [OF assms(1,3,4)] by blast
  have s': "s' = sample_UpdateBase256ChainHeader s0 (DmtxUndefined h)"
    using s0(5) by (simp only: assms(2))
  have out: "outputList s' = outputList s0
               @ [Randomize255State2 0 (int (length (outputList s0)) + 1)]"
    and wc: "outputChainWordCount s' = 0"
    and vc: "outputChainValueCount s' = 0"
    and cs: "currentScheme s' = DmtxSchemeBase256"
    using s0(2,3) by (simp_all add: s' sample_UpdateBase256ChainHeader_def)
  have "outputChainWordCount s0 = 0 \<and> outputChainValueCount s0 = 0
          \<and> currentScheme s0 = DmtxSchemeBase256 \<and> status s0 = DmtxStatusEncoding
          \<and> s' = UpdateBase256ChainHeader h s0 (DmtxUndefined h)
          \<and> outputList s' = outputList s0
               @ [Randomize255State2 0 (int (length (outputList s0)) + 1)]"
    using s0 out by (intro conjI)
  then have ex: "\<exists>s0. outputChainWordCount s0 = 0 \<and> outputChainValueCount s0 = 0
          \<and> currentScheme s0 = DmtxSchemeBase256 \<and> status s0 = DmtxStatusEncoding
          \<and> s' = UpdateBase256ChainHeader h s0 (DmtxUndefined h)
          \<and> outputList s' = outputList s0
               @ [Randomize255State2 0 (int (length (outputList s0)) + 1)]"
    by (intro exI [of _ s0])
  show ?thesis
    using wc vc cs True ex by (intro conjI impI) simp_all
qed

lemma EncodeNextChunk_switch_spec:
  "EncodeNextChunk_switch h s rq = dispatch_spec h s rq"
  by (cases "currentScheme s")
    (simp_all add: EncodeNextChunk_switch_def dispatch_spec_def spec_sub_encoder_def
      CHKERR_def if_encoding_def)

text \<open>
  C5. \<^verbatim>\<open>EncodeNextChunk\<close> is the procedure of the specification: when the current
  scheme differs from the target it first performs
  \<^verbatim>\<open>EncodeChangeScheme(stream, target, DmtxUnlatchExplicit)\<close> and goes on only while
  the status is Encoding (and the change has reached the target, Fatal otherwise); then
  it calls the chunk encoder of the current scheme and, only while the status is still
  Encoding, that scheme's completion check. There is no sub-encoder exactly for the
  schemes outside the six, and for those the stream is marked Fatal.
\<close>

theorem EncodeNextChunk_dispatch:
  "EncodeNextChunk h stream targetScheme requestedSizeIdx =
     encode_next_chunk_spec h stream targetScheme requestedSizeIdx
   \<and> (spec_sub_encoder h (currentScheme stream) requestedSizeIdx = None
        \<longleftrightarrow> (\<exists>k. currentScheme stream = DmtxSchemeOther k))
   \<and> ((\<exists>k. currentScheme stream = DmtxSchemeOther k) \<and> currentScheme stream = targetScheme
        \<longrightarrow> EncodeNextChunk h stream targetScheme requestedSizeIdx
              = Inr (StreamMarkFatal stream 1))"
proof (intro conjI impI)
  show "EncodeNextChunk h stream targetScheme requestedSizeIdx =
          encode_next_chunk_spec h stream targetScheme requestedSizeIdx"
  proof (cases "currentScheme stream = targetScheme")
    case True
    then show ?thesis
      by (simp add: EncodeNextChunk_def encode_next_chunk_spec_def EncodeNextChunk_switch_spec)
  next
    case False
    show ?thesis
    proof (cases "EncodeChangeScheme h stream targetScheme DmtxUnlatchExplicit")
      case (Inl a)
      then show ?thesis
        using False by (simp add: EncodeNextChunk_def encode_next_chunk_spec_def)
    next
      case (Inr s1)
      then show ?thesis
        using False
        by (simp add: EncodeNextChunk_def encode_next_chunk_spec_def EncodeNextChunk_switch_spec
            CHKERR_def CHKSCHEME_def if_encoding_def)
    qed
  qed
  show "spec_sub_encoder h (currentScheme stream) requestedSizeIdx = None
        \<longleftrightarrow> (\<exists>k. currentScheme stream = DmtxSchemeOther k)"
    by (cases "currentScheme stream") (simp_all add: spec_sub_encoder_def)
  show "EncodeNextChunk h stream targetScheme requestedSizeIdx = Inr (StreamMarkFatal stream 1)"
    if "(\<exists>k. currentScheme stream = DmtxSchemeOther k) \<and> currentScheme stream = targetScheme"
    using that by (auto simp: EncodeNextChunk_def EncodeNextChunk_switch_def)
qed

text \<open>
  C6. For every stream whose current scheme is not ASCII, \<^verbatim>\<open>EncodeSingleScheme2\<close>
  returns \<^verbatim>\<open>DmtxFail\<close> with the stream marked Fatal. No routine of the encoders is
  involved: the result is the same for all of them, and output, input cursor, scheme and
  chain counters are those of the stream given.
\<close>

theorem EncodeSingleScheme2_not_ascii:
  assumes "currentScheme stream \<noteq> DmtxSchemeAscii"
  shows "EncodeSingleScheme2 h stream targetScheme requestedSizeIdx
           = Some (Inr (StreamMarkFatal stream 1, DmtxFail))
         \<and> status (StreamMarkFatal stream 1) = DmtxStatusFatal
         \<and> outputList (StreamMarkFatal stream 1) = outputList stream
         \<and> inputNext (StreamMarkFatal stream 1) = inputNext stream
         \<and> currentScheme (StreamMarkFatal stream 1) = currentScheme stream
         \<and> outputChainWordCount (StreamMarkFatal stream 1) = outputChainWordCount stream
         \<and> outputChainValueCount (StreamMarkFatal stream 1) = outputChainValueCount stream"
  using assms by (simp add: EncodeSingleScheme2_def StreamMarkFatal_def)

lemma encoding_after_0:
  "encoding_after h t r s 0 = (status s = DmtxStatusEncoding)"
  by (simp add: encoding_after_def)

lemma encoding_after_Suc:
  "EncodeNextChunk h s t r = Inr s1 \<Longrightarrow> encoding_after h t r s (Suc k) = encoding_after h t r s1 k"
  by (simp add: encoding_after_def)

lemma loop_makes_calls_0:
  "loop_makes_calls h t r s 0 s' \<longleftrightarrow> s' = s \<and> status s \<noteq> DmtxStatusEncoding"
  by (auto simp: loop_makes_calls_def)

lemma loop_makes_calls_Suc:
  "loop_makes_calls h t r s (Suc n) s' \<longleftrightarrow>
     status s = DmtxStatusEncoding
     \<and> (\<exists>s1. EncodeNextChunk h s t r = Inr s1 \<and> loop_makes_calls h t r s1 n s')"
proof (cases "EncodeNextChunk h s t r")
  case (Inl a)
  then show ?thesis by (simp add: loop_makes_calls_def)
next
  case (Inr s1)
  have "(\<forall>k<Suc n. encoding_after h t r s k)
        \<longleftrightarrow> status s = DmtxStatusEncoding \<and> (\<forall>k<n. encoding_after h t r s1 k)"
    by (simp add: All_less_Suc2 encoding_after_0 encoding_after_Suc [OF Inr])
  then show ?thesis
    using Inr by (auto simp: loop_makes_calls_def)
qed

lemma EncodeSingleScheme2_loop_returns:
  "loop_makes_calls h t r s n s' \<Longrightarrow> EncodeSingleScheme2_loop h t r s = Some (Inr s')"
proof (induction n arbitrary: s)
  case 0
  then show ?case
    by (subst EncodeSingleScheme2_loop.simps) (simp add: loop_makes_calls_0)
next
  case (Suc n)
  then obtain s1 where s1: "status s = DmtxStatusEncoding" "EncodeNextChunk h s t r = Inr s1"
    "loop_makes_calls h t r s1 n s'"
    by (auto simp: loop_makes_calls_Suc)
  have "EncodeSingleScheme2_loop h t r s1 = Some (Inr s')"
    using s1(3) by (rule Suc.IH)
  then show ?case
    using s1(1,2) by (subst EncodeSingleScheme2_loop.simps) simp
qed

lemma EncodeSingleScheme2_loop_result:
  assumes "EncodeSingleScheme2_loop h t r s = Some res"
  shows "\<forall>s'. res = Inr s' \<longrightarrow> (\<exists>n. loop_makes_calls h t r s n s')"
proof (rule EncodeSingleScheme2_loop.raw_induct [OF _ assms])
  fix loop h t r s res
  assume IH: "\<And>h t r s res. loop h t r s = Some res \<Longrightarrow>
                \<forall>s'. res = Inr s' \<longrightarrow> (\<exists>n. loop_makes_calls h t r s n s')"
    and body: "(if status s = DmtxStatusEncoding
                then case EncodeNextChunk h s t r of
                       Inl a \<Rightarrow> Some (Inl a)
                     | Inr s1 \<Rightarrow> loop h t r s1
                else Some (Inr s)) = Some res"
  show "\<forall>s'. res = Inr s' \<longrightarrow> (\<exists>n. loop_makes_calls h t r s n s')"
  proof (cases "status s = DmtxStatusEncoding")
    case False
    then have res: "res = Inr s" using body by simp
    have "loop_makes_calls h t r s 0 s"
      using False by (simp add: loop_makes_calls_0)
    then show ?thesis using res by blast
  next
    case True
    show ?thesis
    proof (cases "EncodeNextChunk h s t r")
      case (Inl a)
      then have "res = Inl a" using True body by simp
      then show ?thesis by simp
    next
      case (Inr s1)
      then have l: "loop h t r s1 = Some res" using True body by simp
      show ?thesis
      proof (intro allI impI)
        fix s' assume "res = Inr s'"
        then obtain n where "loop_makes_calls h t r s1 n s'"
          using IH [OF l] by blast
        then have "loop_makes_calls h t r s (Suc n) s'"
          using True Inr by (simp add: loop_makes_calls_Suc)
        then show "\<exists>n. loop_makes_calls h t r s n s'" ..
      qed
    qed
  qed
qed


text \<open>
  C1. \<^verbatim>\<open>EncodeSingleScheme2\<close> returns the stream \<open>final\<close> with the verdict
  \<open>result\<close> exactly when either the stream did not start in ASCII and \<open>final\<close> is the
  stream marked Fatal, or the loop made some number \<open>n\<close> of calls of
  \<^verbatim>\<open>EncodeNextChunk\<close>, each on a stream in status Encoding, and \<open>final\<close>, the stream
  after the last call, has another status; and the verdict is \<^verbatim>\<open>DmtxPass\<close> if
  \<open>final\<close> is Complete with its input exhausted, \<^verbatim>\<open>DmtxFail\<close> in every other case.
  In particular the function does return whenever finitely many calls take the status
  out of Encoding.
\<close>

theorem EncodeSingleScheme2_result:
  "(EncodeSingleScheme2 h stream targetScheme requestedSizeIdx = Some (Inr (final, result))
      \<longleftrightarrow>
        (if currentScheme stream \<noteq> DmtxSchemeAscii
         then final = StreamMarkFatal stream 1
         else (\<exists>n. loop_makes_calls h targetScheme requestedSizeIdx stream n final))
        \<and> result = (if status final = DmtxStatusComplete \<and> \<not> StreamInputHasNext final
                     then DmtxPass else DmtxFail))
   \<and> (EncodeSingleScheme2 h stream targetScheme requestedSizeIdx = Some (Inr (final, result))
        \<longrightarrow> (result = DmtxPass
               \<longleftrightarrow> status final = DmtxStatusComplete \<and> \<not> StreamInputHasNext final)
            \<and> (result = DmtxFail
               \<longleftrightarrow> \<not> (status final = DmtxStatusComplete \<and> \<not> StreamInputHasNext final)))"
proof -
  let ?verdict = "\<lambda>s. if status s = DmtxStatusComplete \<and> \<not> StreamInputHasNext s
                      then DmtxPass else DmtxFail"
  have calls: "(\<exists>n. loop_makes_calls h targetScheme requestedSizeIdx stream n final)
               \<longleftrightarrow> EncodeSingleScheme2_loop h targetScheme requestedSizeIdx stream = Some (Inr final)"
    using EncodeSingleScheme2_loop_returns EncodeSingleScheme2_loop_result by blast
  have eq: "EncodeSingleScheme2 h stream targetScheme requestedSizeIdx = Some (Inr (final, result))
      \<longleftrightarrow>
        (if currentScheme stream \<noteq> DmtxSchemeAscii
         then final = StreamMarkFatal stream 1
         else (\<exists>n. loop_makes_calls h targetScheme requestedSizeIdx stream n final))
        \<and> result = ?verdict final"
  proof (cases "currentScheme stream = DmtxSchemeAscii")
    case False
    have "status (StreamMarkFatal stream 1) = DmtxStatusFatal"
      by (simp add: StreamMarkFatal_def)
    then show ?thesis
      using False by (auto simp: EncodeSingleScheme2_def)
  next
    case True
    show ?thesis
    proof (cases "EncodeSingleScheme2_loop h targetScheme requestedSizeIdx stream")
      case None
      then show ?thesis using True by (simp add: EncodeSingleScheme2_def calls)
    next
      case (Some res)
      show ?thesis
      proof (cases res)
        case (Inl a)
        then show ?thesis using True Some by (simp add: EncodeSingleScheme2_def calls)
      next
        case (Inr s)
        then show ?thesis using True Some by (auto simp: EncodeSingleScheme2_def calls)
      qed
    qed
  qed
  have verdict: "(?verdict final = DmtxPass
               \<longleftrightarrow> status final = DmtxStatusComplete \<and> \<not> StreamInputHasNext final)
            \<and> (?verdict final = DmtxFail
               \<longleftrightarrow> \<not> (status final = DmtxStatusComplete \<and> \<not> StreamInputHasNext final))"
    by simp
  have res: "result = ?verdict final"
    if "EncodeSingleScheme2 h stream targetScheme requestedSizeIdx = Some (Inr (final, result))"
    using that eq by simp
  show ?thesis
  proof (intro conjI impI)
    show "EncodeSingleScheme2 h stream targetScheme requestedSizeIdx = Some (Inr (final, result))
      \<longleftrightarrow>
        (if currentScheme stream \<noteq> DmtxSchemeAscii
         then final = StreamMarkFatal stream 1
         else (\<exists>n. loop_makes_calls h targetScheme requestedSizeIdx stream n final))
        \<and> result = ?verdict final"
      by (rule eq)
  next
    assume "EncodeSingleScheme2 h stream targetScheme requestedSizeIdx = Some (Inr (final, result))"
    then have r: "result = ?verdict final" by (rule res)
    show "result = DmtxPass
            \<longleftrightarrow> status final = DmtxStatusComplete \<and> \<not> StreamInputHasNext final"
      unfolding r using verdict by (rule conjunct1)
  next
    assume "EncodeSingleScheme2 h stream targetScheme requestedSizeIdx = Some (Inr (final, result))"
    then have r: "result = ?verdict final" by (rule res)
    show "result = DmtxFail
            \<longleftrightarrow> \<not> (status final = DmtxStatusComplete \<and> \<not> StreamInputHasNext final)"
      unfolding r using verdict by (rule conjunct2)
  qed
qed

lemmas dispatcher_defs =
  EncodeNextChunk_def EncodeNextChunk_switch_def EncodeChangeScheme_def
  EncodeChangeScheme_unlatch_def EncodeChangeScheme_latch_def CHKERR_def CHKSCHEME_def
  StreamMarkFatal_def StreamMarkInvalid_def StreamInputHasNext_def
  DmtxValueC40Latch_def DmtxValueTextLatch_def DmtxValueX12Latch_def
  DmtxValueEdifactLatch_def DmtxValueBase256Latch_def DmtxValueEdifactUnlatch_def

lemmas spec_defs =
  change_scheme_spec_def spec_unlatch_def spec_latch_def emit_unlatch_def if_encoding_def
  encode_next_chunk_spec_def dispatch_spec_def spec_sub_encoder_def

lemmas sample_defs =
  sample_externals_def StreamInit_def StreamOutputChainAppend_def sample_EncodeValueAscii_def
  sample_EncodeUnlatchCTX_def sample_EncodeValueEdifact_def sample_UpdateBase256ChainHeader_def
  sample_EncodeNextChunkAscii_def sample_find_symbol_size_def sample_pad_def
  sample_CompleteIfDoneAscii_def DmtxValueCTXUnlatch_def DmtxValueAsciiPad_def
  DmtxValueAsciiUpperShift_def Randomize255State2_def Randomize253State2_tmp_def c_rem_def
  int32_wrap_def

theorem EncodeChangeScheme_same_scheme_witness:
  "DmtxSchemeAscii = currentScheme (StreamInit [65])
   \<and> EncodeChangeScheme (sample_externals []) (StreamInit [65]) DmtxSchemeAscii DmtxUnlatchExplicit
       = Inr (StreamInit [65])"
  using EncodeChangeScheme_same_scheme [of DmtxSchemeAscii "StreamInit [65]" "sample_externals []"
      DmtxUnlatchExplicit]
  by (simp add: StreamInit_def)

theorem EncodeChangeScheme_procedure_witness:
  "status \<lparr>currentScheme = DmtxSchemeC40, inputNext = 3, outputChainValueCount = 3,
           outputChainWordCount = 3, reason = 0, status = DmtxStatusEncoding,
           input = [65, 66, 67], outputList = [230, 89, 233]\<rparr> = DmtxStatusEncoding
   \<and> DmtxSchemeC40 \<noteq> DmtxSchemeText
   \<and> (\<forall>k. DmtxSchemeC40 \<noteq> DmtxSchemeOther k)
   \<and> EncodeChangeScheme (sample_externals [])
        \<lparr>currentScheme = DmtxSchemeC40, inputNext = 3, outputChainValueCount = 3,
         outputChainWordCount = 3, reason = 0, status = DmtxStatusEncoding,
         input = [65, 66, 67], outputList = [230, 89, 233]\<rparr>
        DmtxSchemeText DmtxUnlatchExplicit
      = Inr \<lparr>currentScheme = DmtxSchemeText, inputNext = 3, outputChainValueCount = 0,
             outputChainWordCount = 0, reason = 0, status = DmtxStatusEncoding,
             input = [65, 66, 67], outputList = [230, 89, 233, 254, 239]\<rparr>
   \<and> EncodeChangeScheme (sample_externals [])
        \<lparr>currentScheme = DmtxSchemeC40, inputNext = 3, outputChainValueCount = 3,
         outputChainWordCount = 3, reason = 0, status = DmtxStatusEncoding,
         input = [65, 66, 67], outputList = [230, 89, 233]\<rparr>
        DmtxSchemeAscii DmtxUnlatchImplicit
      = Inr \<lparr>currentScheme = DmtxSchemeAscii, inputNext = 3, outputChainValueCount = 0,
             outputChainWordCount = 0, reason = 0, status = DmtxStatusEncoding,
             input = [65, 66, 67], outputList = [230, 89, 233]\<rparr>
   \<and> EncodeChangeScheme (sample_externals [])
        \<lparr>currentScheme = DmtxSchemeEdifact, inputNext = 0, outputChainValueCount = 0,
         outputChainWordCount = 0, reason = 0, status = DmtxStatusEncoding,
         input = [65], outputList = [240]\<rparr>
        DmtxSchemeX12 DmtxUnlatchExplicit
      = Inr \<lparr>currentScheme = DmtxSchemeX12, inputNext = 0, outputChainValueCount = 0,
             outputChainWordCount = 0, reason = 0, status = DmtxStatusEncoding,
             input = [65], outputList = [240, 124, 238]\<rparr>"
  by (simp add: EncodeChangeScheme_procedure spec_defs sample_defs StreamMarkFatal_def)

theorem EncodeChangeScheme_resets_chain_witness:
  "currentScheme (StreamInit []) \<noteq> DmtxSchemeBase256
   \<and> UpdateBase256ChainHeader (sample_externals []) = sample_UpdateBase256ChainHeader
   \<and> EncodeChangeScheme (sample_externals []) (StreamInit []) DmtxSchemeBase256
        DmtxUnlatchExplicit
       = Inr \<lparr>currentScheme = DmtxSchemeBase256, inputNext = 0, outputChainValueCount = 0,
              outputChainWordCount = 0, reason = 0, status = DmtxStatusEncoding,
              input = [], outputList = [231, 44]\<rparr>
   \<and> outputChainWordCount \<lparr>currentScheme = DmtxSchemeBase256, inputNext = 0,
         outputChainValueCount = 0, outputChainWordCount = 0, reason = 0,
         status = DmtxStatusEncoding, input = [], outputList = [231, 44]\<rparr> = 0
   \<and> outputChainValueCount \<lparr>currentScheme = DmtxSchemeBase256, inputNext = 0,
         outputChainValueCount = 0, outputChainWordCount = 0, reason = 0,
         status = DmtxStatusEncoding, input = [], outputList = [231, 44]\<rparr> = 0"
proof -
  let ?s' = "\<lparr>currentScheme = DmtxSchemeBase256, inputNext = 0, outputChainValueCount = 0,
              outputChainWordCount = 0, reason = 0, status = DmtxStatusEncoding,
              input = [], outputList = [231, 44]\<rparr>"
  have a: "currentScheme (StreamInit []) \<noteq> DmtxSchemeBase256"
    by (simp add: StreamInit_def)
  have u: "UpdateBase256ChainHeader (sample_externals []) = sample_UpdateBase256ChainHeader"
    by (simp add: sample_externals_def)
  have b: "EncodeChangeScheme (sample_externals []) (StreamInit []) DmtxSchemeBase256
             DmtxUnlatchExplicit = Inr ?s'"
    by (simp add: dispatcher_defs sample_defs)
  have c: "status ?s' = DmtxStatusEncoding" by simp
  show ?thesis
    using a u b EncodeChangeScheme_resets_chain [OF a u b c] by simp
qed

theorem EncodeNextChunk_dispatch_witness:
  "EncodeNextChunk (sample_externals [3, 5, 8]) (StreamInit [65, 49]) DmtxSchemeAscii (- 1)
     = Inr \<lparr>currentScheme = DmtxSchemeAscii, inputNext = 1, outputChainValueCount = 1,
            outputChainWordCount = 1, reason = 0, status = DmtxStatusEncoding,
            input = [65, 49], outputList = [66]\<rparr>
   \<and> EncodeNextChunk (sample_externals [3, 5, 8]) (StreamInit [65, 49]) DmtxSchemeC40 (- 1)
     = Inr \<lparr>currentScheme = DmtxSchemeC40, inputNext = 0, outputChainValueCount = 0,
            outputChainWordCount = 0, reason = 1, status = DmtxStatusInvalid,
            input = [65, 49], outputList = [230]\<rparr>
   \<and> EncodeNextChunk (sample_externals [3, 5, 8])
        ((StreamInit [65, 49])\<lparr>currentScheme := DmtxSchemeOther 9\<rparr>) (DmtxSchemeOther 9) (- 1)
     = Inr ((StreamInit [65, 49])\<lparr>currentScheme := DmtxSchemeOther 9,
                                   status := DmtxStatusFatal, reason := 1\<rparr>)"
  by (simp add: EncodeNextChunk_dispatch [THEN conjunct1] spec_defs sample_defs
      EncodeChangeScheme_def EncodeChangeScheme_unlatch_def EncodeChangeScheme_latch_def
      CHKERR_def CHKSCHEME_def StreamMarkFatal_def StreamMarkInvalid_def StreamInputHasNext_def
      DmtxValueC40Latch_def)

theorem EncodeSingleScheme2_not_ascii_witness:
  "currentScheme ((StreamInit [65, 49])\<lparr>currentScheme := DmtxSchemeC40\<rparr>) \<noteq> DmtxSchemeAscii
   \<and> EncodeSingleScheme2 (sample_externals [3, 5, 8])
        ((StreamInit [65, 49])\<lparr>currentScheme := DmtxSchemeC40\<rparr>) DmtxSchemeC40 (- 1)
      = Some (Inr (\<lparr>currentScheme = DmtxSchemeC40, inputNext = 0, outputChainValueCount = 0,
                    outputChainWordCount = 0, reason = 1, status = DmtxStatusFatal,
                    input = [65, 49], outputList = []\<rparr>, DmtxFail))"
  using EncodeSingleScheme2_not_ascii [of "(StreamInit [65, 49])\<lparr>currentScheme := DmtxSchemeC40\<rparr>"
      "sample_externals [3, 5, 8]" DmtxSchemeC40 "- 1"]
  by (simp add: StreamInit_def StreamMarkFatal_def)



theorem EncodeSingleScheme2_result_witness:
  "EncodeSingleScheme2 (sample_externals [3, 5, 8]) (StreamInit [65, 49]) DmtxSchemeAscii (- 1)
     = Some (Inr (\<lparr>currentScheme = DmtxSchemeAscii, inputNext = 2, outputChainValueCount = 2,
                   outputChainWordCount = 3, reason = 0, status = DmtxStatusComplete,
                   input = [65, 49], outputList = [66, 50, 129]\<rparr>, DmtxPass))
   \<and> loop_makes_calls (sample_externals [3, 5, 8]) DmtxSchemeAscii (- 1) (StreamInit [65, 49])
        (Suc (Suc 0))
        \<lparr>currentScheme = DmtxSchemeAscii, inputNext = 2, outputChainValueCount = 2,
         outputChainWordCount = 3, reason = 0, status = DmtxStatusComplete,
         input = [65, 49], outputList = [66, 50, 129]\<rparr>"
proof -
  let ?h = "sample_externals [3, 5, 8]"
  let ?mid = "\<lparr>currentScheme = DmtxSchemeAscii, inputNext = 1, outputChainValueCount = 1,
               outputChainWordCount = 1, reason = 0, status = DmtxStatusEncoding,
               input = [65, 49], outputList = [66]\<rparr>"
  let ?final = "\<lparr>currentScheme = DmtxSchemeAscii, inputNext = 2, outputChainValueCount = 2,
                 outputChainWordCount = 3, reason = 0, status = DmtxStatusComplete,
                 input = [65, 49], outputList = [66, 50, 129]\<rparr>"
  have c1: "EncodeNextChunk ?h (StreamInit [65, 49]) DmtxSchemeAscii (- 1) = Inr ?mid"
    by (simp add: dispatcher_defs sample_defs if_encoding_def)
  have c2: "EncodeNextChunk ?h ?mid DmtxSchemeAscii (- 1) = Inr ?final"
    by (simp add: dispatcher_defs sample_defs if_encoding_def)
  have "loop_makes_calls ?h DmtxSchemeAscii (- 1) ?final 0 ?final"
    by (simp add: loop_makes_calls_0)
  then have "loop_makes_calls ?h DmtxSchemeAscii (- 1) ?mid (Suc 0) ?final"
    using c2 by (simp add: loop_makes_calls_Suc)
  then have calls: "loop_makes_calls ?h DmtxSchemeAscii (- 1) (StreamInit [65, 49])
                      (Suc (Suc 0)) ?final"
    using c1 by (simp add: loop_makes_calls_Suc StreamInit_def)
  then have ex: "\<exists>n. loop_makes_calls ?h DmtxSchemeAscii (- 1) (StreamInit [65, 49]) n ?final" ..
  have "EncodeSingleScheme2 ?h (StreamInit [65, 49]) DmtxSchemeAscii (- 1)
          = Some (Inr (?final, DmtxPass))"
    using ex EncodeSingleScheme2_result [of ?h "StreamInit [65, 49]"
        DmtxSchemeAscii "- 1" ?final DmtxPass, THEN conjunct1]
    by (simp add: StreamInit_def StreamInputHasNext_def)
  then show ?thesis using calls by simp
qed

end
